theory Spec2Isabelle
  imports Main
begin

section \<open>Python values\<close>

text \<open>
  A Python \<open>str\<close> is a sequence of Unicode code points, so a string is a list of
  code points (natural numbers), not a list of bytes: \<open>len\<close> counts code points and
  the word pattern of \<open>count_words\<close> names Cyrillic code points.
\<close>

type_synonym pystr = "nat list"

definition ascii :: "string \<Rightarrow> pystr" where
  "ascii s = map of_char s"

text \<open>
  The values an argument can hold, as far as \<open>isinstance\<close> tells them apart:
  \<open>inference\<close> tests \<open>style\<close>, \<open>input\<close> and every entry of a list input against
  \<open>str\<close> and \<open>list\<close>.
\<close>

datatype pyobj = PyNone | PyInt int | PyStr pystr | PyList "pyobj list"

text \<open>
  The exceptions of \<open>inference\<close>. The source tells its errors apart by the class and
  the (Russian) message; \<open>msg\<close> names the seven messages of \<open>genai_1_24.py\<close>:
  \<^item> \<open>StyleMustBeStr\<close>: line 59, the argument style must have type str;
  \<^item> \<open>PipeMustBePipeline\<close>: line 61, the argument pipe must have type
    TextGenerationPipeline;
  \<^item> \<open>EmptyInput\<close>: line 68, the input string must not be empty or blank;
  \<^item> \<open>InputLengthExceeded\<close>: line 70, the length of the input string exceeds the
    maximum;
  \<^item> \<open>LineLengthExceeded\<close>: line 87, the length of one of the input strings exceeds
    the maximum;
  \<^item> \<open>EmptyBatch\<close>: line 100, the list of requests must not be empty;
  \<^item> \<open>InputMustBeStrOrList\<close>: line 105, the argument input must be a string or a
    list of strings.
  \<open>IndexError\<close> is what indexing an empty list raises when the reply is unpacked, and
  \<open>EngineError\<close> stands for whatever else the pipeline itself raises.
\<close>

datatype msg =
    StyleMustBeStr | PipeMustBePipeline | EmptyInput | InputLengthExceeded
  | LineLengthExceeded | EmptyBatch | InputMustBeStrOrList

datatype pyexc = TypeError msg | ValueError msg | IndexError | EngineError nat

section \<open>str.strip\<close>

text \<open>
  \<open>str.strip()\<close> with no argument removes leading and trailing whitespace, the code
  points for which \<open>str.isspace\<close> holds.
\<close>

definition isspace :: "nat \<Rightarrow> bool" where
  "isspace c \<longleftrightarrow>
     (9 \<le> c \<and> c \<le> 13) \<or> (28 \<le> c \<and> c \<le> 32) \<or> c = 133 \<or> c = 160 \<or> c = 5760 \<or>
     (8192 \<le> c \<and> c \<le> 8202) \<or> c = 8232 \<or> c = 8233 \<or> c = 8239 \<or> c = 8287 \<or>
     c = 12288"

definition strip :: "pystr \<Rightarrow> pystr" where
  "strip s = rev (dropWhile isspace (rev (dropWhile isspace s)))"

section \<open>The pipeline and its replies\<close>

text \<open>
  A chat message is the dict \<open>{'role': ..., 'content': ...}\<close>; a conversation is a list
  of messages. The pipeline answers one conversation with a list of dicts
  \<open>{'generated_text': [messages]}\<close>, and a list of conversations with a list of such
  lists.
\<close>

record message =
  role :: pystr
  content :: pystr

record generation =
  generated_text :: "message list"

record pipeline =
  generate :: "message list \<Rightarrow> int option \<Rightarrow> pyexc + generation list"
  generate_batch :: "message list list \<Rightarrow> nat \<Rightarrow> int option \<Rightarrow> pyexc + generation list list"

text \<open>
  What is passed as \<open>pipe\<close>: an instance of \<open>TextGenerationPipeline\<close>, or any other
  object (which may well be callable).
\<close>

datatype pipe_obj = TextGenerationPipeline pipeline | OtherObject "pipeline option"

text \<open>The calls of the pipeline that a run of \<open>inference\<close> makes, in order.\<close>

datatype engine_call =
    Call "message list" "int option"
  | BatchCall "message list list" nat "int option"

text \<open>\<open>a[0]['generated_text'][-1]['content']\<close>: indexing an empty list raises.\<close>

definition last_content :: "generation list \<Rightarrow> pyexc + pystr" where
  "last_content a =
     (case a of
        [] \<Rightarrow> Inl IndexError
      | g # _ \<Rightarrow>
          (case generated_text g of
             [] \<Rightarrow> Inl IndexError
           | m # ms \<Rightarrow> Inr (content (last (m # ms)))))"

text \<open>The list comprehension of line 102: the first reply that cannot be unpacked raises.\<close>

fun extract_all :: "generation list list \<Rightarrow> pyexc + pystr list" where
  "extract_all [] = Inr []"
| "extract_all (a # rest) =
     (case last_content a of
        Inl e \<Rightarrow> Inl e
      | Inr c \<Rightarrow> (case extract_all rest of Inl e \<Rightarrow> Inl e | Inr cs \<Rightarrow> Inr (c # cs)))"

section \<open>inference (genai\_1\_24.py)\<close>

text \<open>
  The system instruction of lines 72 and 91 (the same literal twice): the 128 code
  points of the Russian sentence "Your task is to rephrase, in the given style, the
  text the user sends. Add nothing of your own, not even quotation marks."
\<close>

definition SYSTEM_INSTRUCTION :: pystr where
  "SYSTEM_INSTRUCTION =
     [1058, 1074, 1086, 1103, 32, 1079, 1072, 1076, 1072, 1095, 1072, 32, 8212, 32, 1087,
      1077, 1088, 1077, 1092, 1088, 1072, 1079, 1080, 1088, 1086, 1074, 1072, 1090, 1100,
      32, 1074, 32, 1091, 1082, 1072, 1079, 1072, 1085, 1085, 1086, 1084, 32, 1089, 1090,
      1080, 1083, 1077, 32, 1090, 1077, 1082, 1089, 1090, 44, 32, 1082, 1086, 1090, 1086,
      1088, 1099, 1081, 32, 1087, 1088, 1080, 1089, 1099, 1083, 1072, 1077, 1090, 32, 1087,
      1086, 1083, 1100, 1079, 1086, 1074, 1072, 1090, 1077, 1083, 1100, 46, 32, 1053, 1077,
      32, 1076, 1086, 1073, 1072, 1074, 1083, 1103, 1081, 32, 1085, 1080, 1095, 1077, 1075,
      1086, 32, 1086, 1090, 32, 1089, 1077, 1073, 1103, 44, 32, 1076, 1072, 1078, 1077, 32,
      1082, 1072, 1074, 1099, 1095, 1082, 1080, 46]"

text \<open>
  The pieces of the f-string of lines 73 and 92 around \<open>{input}\<close> and \<open>{style}\<close>:
  the Russian word for "Text", a colon, a space and a double quote; then a double quote,
  a newline, the Russian word for "Style", a colon and a space.
\<close>

definition TEXT_PREFIX :: pystr where
  "TEXT_PREFIX = [1058, 1077, 1082, 1089, 1090, 58, 32, 34]"

definition STYLE_INFIX :: pystr where
  "STYLE_INFIX = [34, 10, 1057, 1090, 1080, 1083, 1100, 58, 32]"

text \<open>\<open>len_limit is not None and len(s) > len_limit\<close>\<close>

definition exceeds :: "int option \<Rightarrow> pystr \<Rightarrow> bool" where
  "exceeds len_limit s = (case len_limit of None \<Rightarrow> False | Some l \<Rightarrow> int (length s) > l)"

text \<open>
  The loop of lines 79 to 98 over the entries of a list input, \<open>message\<close> being the
  list built so far. A \<open>raise\<close> ends the loop with the exception.
\<close>

fun batch_loop :: "pystr \<Rightarrow> int option \<Rightarrow> pyobj list \<Rightarrow> message list list \<Rightarrow> pyexc + message list list" where
  "batch_loop style len_limit [] message = Inr message"
| "batch_loop style len_limit (PyStr raw # rest) message =
     (let ln = strip raw in
      if ln = [] then batch_loop style len_limit rest message
      else if exceeds len_limit ln then Inl (ValueError LineLengthExceeded)
      else batch_loop style len_limit rest
             (message @
              [[\<lparr>role = ascii ''system'', content = SYSTEM_INSTRUCTION\<rparr>,
                \<lparr>role = ascii ''user'', content = TEXT_PREFIX @ ln @ STYLE_INFIX @ style\<rparr>]]))"
| "batch_loop style len_limit (_ # rest) message = batch_loop style len_limit rest message"

text \<open>
  \<open>inference(style, input, pipe, token_limit, len_limit)\<close>. The result is what the
  call returns or raises, together with the calls of the pipeline it has made.
\<close>

definition inference ::
  "pyobj \<Rightarrow> pyobj \<Rightarrow> pipe_obj \<Rightarrow> int option \<Rightarrow> int option \<Rightarrow> (pyexc + pyobj) \<times> engine_call list" where
  "inference style input pipe token_limit len_limit =
     (case style of
        PyStr sty \<Rightarrow>
          (case pipe of
             TextGenerationPipeline p \<Rightarrow>
               (case input of
                  PyStr raw \<Rightarrow>
                    (let inp = strip raw in
                     if inp = [] then (Inl (ValueError EmptyInput), [])
                     else if exceeds len_limit inp then (Inl (ValueError InputLengthExceeded), [])
                     else
                       (let message =
                              [\<lparr>role = ascii ''system'', content = SYSTEM_INSTRUCTION\<rparr>,
                               \<lparr>role = ascii ''user'', content = TEXT_PREFIX @ inp @ STYLE_INFIX @ sty\<rparr>]
                        in case generate p message token_limit of
                             Inl e \<Rightarrow> (Inl e, [Call message token_limit])
                           | Inr out \<Rightarrow>
                               (case last_content out of
                                  Inl e \<Rightarrow> (Inl e, [Call message token_limit])
                                | Inr c \<Rightarrow> (Inr (PyStr c), [Call message token_limit]))))
                | PyList lines \<Rightarrow>
                    (case batch_loop sty len_limit lines [] of
                       Inl e \<Rightarrow> (Inl e, [])
                     | Inr message \<Rightarrow>
                         if message = [] then (Inl (ValueError EmptyBatch), [])
                         else
                           (case generate_batch p message 16 token_limit of
                              Inl e \<Rightarrow> (Inl e, [BatchCall message 16 token_limit])
                            | Inr answer \<Rightarrow>
                                (case extract_all answer of
                                   Inl e \<Rightarrow> (Inl e, [BatchCall message 16 token_limit])
                                 | Inr cs \<Rightarrow>
                                     (Inr (PyList (map PyStr cs)),
                                      [BatchCall message 16 token_limit]))))
                | _ \<Rightarrow> (Inl (TypeError InputMustBeStrOrList), []))
           | OtherObject _ \<Rightarrow> (Inl (TypeError PipeMustBePipeline), []))
      | _ \<Rightarrow> (Inl (TypeError StyleMustBeStr), []))"

text \<open>
  A pipeline to run the model on: it answers every conversation with one generation,
  the conversation followed by an assistant turn that repeats the content of the last
  message.
\<close>

definition echo_reply :: "message list \<Rightarrow> generation list" where
  "echo_reply conv =
     [\<lparr>generated_text =
         conv @ [\<lparr>role = ascii ''assistant'',
                  content = (case conv of [] \<Rightarrow> [] | m # ms \<Rightarrow> content (last (m # ms)))\<rparr>]\<rparr>]"

definition echo_pipeline :: pipeline where
  "echo_pipeline =
     \<lparr>generate = (\<lambda>conv max_new_tokens. Inr (echo_reply conv)),
      generate_batch = (\<lambda>convs batch_size max_new_tokens. Inr (map echo_reply convs))\<rparr>"

section \<open>The validator and the prompt builder as the specification words them\<close>

text \<open>
  The specification's Prompt Builder, \<open>buildConversation(style, text)\<close>: one system turn
  with the fixed instruction, then one user turn with the text in double quotes, a
  newline and the style label.
\<close>

definition buildConversation :: "pystr \<Rightarrow> pystr \<Rightarrow> message list" where
  "buildConversation style text =
     [\<lparr>role = ascii ''system'', content = SYSTEM_INSTRUCTION\<rparr>,
      \<lparr>role = ascii ''user'', content = TEXT_PREFIX @ text @ STYLE_INFIX @ style\<rparr>]"

text \<open>
  The three kinds of batch entries of the specification's Input Validator, in the order
  of its checks: an entry is skipped when it is not a string or is empty after trimming;
  a string that is not empty after trimming is oversized when its trimmed length exceeds
  the limit, and valid otherwise.
\<close>

fun skipped :: "pyobj \<Rightarrow> bool" where
  "skipped (PyStr s) = (strip s = [])"
| "skipped _ = True"

fun oversized :: "int option \<Rightarrow> pyobj \<Rightarrow> bool" where
  "oversized len_limit (PyStr s) = (strip s \<noteq> [] \<and> exceeds len_limit (strip s))"
| "oversized len_limit _ = False"

fun valid_line :: "int option \<Rightarrow> pyobj \<Rightarrow> bool" where
  "valid_line len_limit (PyStr s) = (strip s \<noteq> [] \<and> \<not> exceeds len_limit (strip s))"
| "valid_line len_limit _ = False"

text \<open>The trimmed text of a string entry.\<close>

fun trimmed :: "pyobj \<Rightarrow> pystr" where
  "trimmed (PyStr s) = strip s"
| "trimmed _ = []"

text \<open>The conversations of the entries that are not skipped, in their order.\<close>

definition surviving :: "pystr \<Rightarrow> pyobj list \<Rightarrow> message list list" where
  "surviving style lines =
     map (\<lambda>x. buildConversation style (trimmed x)) (filter (\<lambda>x. \<not> skipped x) lines)"

section \<open>count\_words and the refinement loop (main.py)\<close>

text \<open>
  The character class of the pattern of \<open>count_words\<close>: \<open>A-Z\<close>, \<open>a-z\<close>, the Cyrillic
  ranges U+0410 to U+042F and U+0430 to U+044F, the two letters U+0401 and U+0451 (IO),
  \<open>0-9\<close> and the apostrophe.
\<close>

definition word_char :: "nat \<Rightarrow> bool" where
  "word_char c \<longleftrightarrow>
     (65 \<le> c \<and> c \<le> 90) \<or> (97 \<le> c \<and> c \<le> 122) \<or> (1040 \<le> c \<and> c \<le> 1071) \<or>
     (1072 \<le> c \<and> c \<le> 1103) \<or> c = 1025 \<or> c = 1105 \<or> (48 \<le> c \<and> c \<le> 57) \<or> c = 39"

text \<open>
  \<open>re.findall\<close> of a character class followed by \<open>+\<close>: scanning from the left, a match
  starts at the first position that holds a character of the class, the greedy \<open>+\<close>
  takes every following character of the class, and the scan goes on behind the match.
\<close>

function findall_words :: "pystr \<Rightarrow> pystr list" where
  "findall_words [] = []"
| "findall_words (c # cs) =
     (if word_char c then takeWhile word_char (c # cs) # findall_words (dropWhile word_char cs)
      else findall_words cs)"
  by pat_completeness auto
termination
  by (relation "measure length") (auto simp: length_dropWhile_le less_Suc_eq_le)

definition count_words :: "pystr \<Rightarrow> nat" where
  "count_words text = length (findall_words text)"

definition MIN_WORDS :: nat where
  "MIN_WORDS = 100"

definition MAX_WORDS :: nat where
  "MAX_WORDS = 150"

definition tries :: nat where
  "tries = 6"

text \<open>
  The two instructions that lines 80 and 82 append to the body: two newlines and the
  Russian sentences "Make the letter a little more detailed." and "Shorten the letter
  to 100-150 words." (with an en dash, U+2013, between the numbers).
\<close>

definition EXPAND_REQUEST :: pystr where
  "EXPAND_REQUEST =
     [10, 10, 1057, 1076, 1077, 1083, 1072, 1081, 32, 1087, 1080, 1089, 1100, 1084, 1086, 32,
      1095, 1091, 1090, 1100, 32, 1087, 1086, 1076, 1088, 1086, 1073, 1085, 1077, 1077, 46]"

definition SHORTEN_REQUEST :: pystr where
  "SHORTEN_REQUEST =
     [10, 10, 1057, 1086, 1082, 1088, 1072, 1090, 1080, 32, 1087, 1080, 1089, 1100, 1084, 1086,
      32, 1076, 1086, 32, 49, 48, 48, 8211, 49, 53, 48, 32, 1089, 1083, 1086, 1074, 46]"

text \<open>
  \<open>tg.run_style_transfer(pipe, text, style=...)\<close> is called by \<open>main\<close> and defined
  nowhere in \<open>genai_1_24.py\<close>, so the loop takes it as a parameter: from the pipe, the
  text and the style it returns a body or raises, and leaves the pipe in a new state
  (the state is what lets two calls on the same text answer differently).
\<close>

type_synonym 'p style_transfer = "'p \<Rightarrow> pystr \<Rightarrow> pystr \<Rightarrow> (pyexc + pystr) \<times> 'p"

text \<open>
  The loop of lines 74 to 82, \<open>for _ in range(tries)\<close>, with the number of iterations
  left as the first argument. It returns the body (or the exception of a correction
  call), the pipe, and the texts sent in the correction calls, in order.
\<close>

fun refinement_loop ::
  "nat \<Rightarrow> 'p style_transfer \<Rightarrow> pystr \<Rightarrow> 'p \<Rightarrow> pystr \<Rightarrow> (pyexc + pystr) \<times> 'p \<times> pystr list" where
  "refinement_loop 0 run_style_transfer style pipe body = (Inr body, pipe, [])"
| "refinement_loop (Suc n) run_style_transfer style pipe body =
     (let w = count_words body in
      if MIN_WORDS \<le> w \<and> w \<le> MAX_WORDS then (Inr body, pipe, [])
      else
        (let request = (if w < MIN_WORDS then body @ EXPAND_REQUEST else body @ SHORTEN_REQUEST)
         in case run_style_transfer pipe request style of
              (Inl e, pipe') \<Rightarrow> (Inl e, pipe', [request])
            | (Inr body', pipe') \<Rightarrow>
                (case refinement_loop n run_style_transfer style pipe' body' of
                   (r, pipe'', requests) \<Rightarrow> (r, pipe'', request # requests))))"



text \<open>The specification's acceptance predicate on a body.\<close>

definition acceptable :: "pystr \<Rightarrow> bool" where
  "acceptable body \<longleftrightarrow> MIN_WORDS \<le> count_words body \<and> count_words body \<le> MAX_WORDS"

text \<open>
  The specification's word count: the number of maximal runs, that is of the positions
  that hold a character of the class and are not preceded by one.
\<close>

definition run_starts :: "pystr \<Rightarrow> nat list" where
  "run_starts text =
     filter (\<lambda>i. word_char (text ! i) \<and> (i = 0 \<or> \<not> word_char (text ! (i - 1))))
       [0..<length text]"

text \<open>
  The same positions for a text that follows the character \<open>p\<close>: the first position
  starts a run only when \<open>p\<close> is not of the class.
\<close>

definition starts_after :: "nat \<Rightarrow> pystr \<Rightarrow> nat list" where
  "starts_after p text =
     filter (\<lambda>i. word_char (text ! i) \<and> \<not> word_char ((p # text) ! i)) [0..<length text]"

text \<open>
  The text that a correction call sends: the body with the instruction to expand when it
  has too few words, and with the instruction to shorten otherwise.
\<close>

definition correction :: "pystr \<Rightarrow> pystr" where
  "correction body =
     (if count_words body < MIN_WORDS then body @ EXPAND_REQUEST else body @ SHORTEN_REQUEST)"

text \<open>
  Two style-transfer functions to run the loop on: one that always answers with the
  same body, and one whose pipe counts the calls and whose \<open>k\<close>-th answer has
  \<open>step * k\<close> words (each word the letter \<open>a\<close>, followed by a space).
\<close>

definition constant_transfer :: "pystr \<Rightarrow> unit style_transfer" where
  "constant_transfer reply pipe text style = (Inr reply, pipe)"

definition growing_transfer :: "nat \<Rightarrow> nat style_transfer" where
  "growing_transfer step pipe text style =
     (Inr (concat (replicate (step * Suc pipe) [97, 32])), Suc pipe)"

section \<open>The batch loop and the two modes of inference\<close>

lemma batch_loop_char:
  "batch_loop style ll lines message =
     (if \<exists>x\<in>set lines. oversized ll x then Inl (ValueError LineLengthExceeded)
      else Inr (message @ surviving style lines))"
proof (induction lines arbitrary: message)
  case Nil
  show ?case by (simp add: surviving_def)
next
  case (Cons x xs)
  show ?case
  proof (cases x)
    case (PyStr s)
    then show ?thesis using Cons
      by (simp add: surviving_def buildConversation_def Let_def)
  qed (simp_all add: Cons surviving_def)
qed

lemma surviving_Nil_iff: "surviving style lines = [] \<longleftrightarrow> (\<forall>x\<in>set lines. skipped x)"
  by (simp add: surviving_def filter_empty_conv)

lemma surviving_filter:
  "surviving style (filter (\<lambda>x. \<not> skipped x) lines) = surviving style lines"
  by (simp add: surviving_def)

lemma oversized_not_skipped: "oversized ll x \<Longrightarrow> \<not> skipped x"
  by (cases x) simp_all

lemma oversized_filter:
  "(\<exists>x\<in>set (filter (\<lambda>x. \<not> skipped x) lines). oversized ll x) \<longleftrightarrow>
   (\<exists>x\<in>set lines. oversized ll x)"
  using oversized_not_skipped by auto

lemma batch_loop_filter:
  "batch_loop style ll (filter (\<lambda>x. \<not> skipped x) lines) message =
   batch_loop style ll lines message"
  unfolding batch_loop_char oversized_filter surviving_filter ..

lemma inference_batch:
  "inference (PyStr style) (PyList lines) (TextGenerationPipeline p) tk ll =
     (case batch_loop style ll lines [] of
        Inl e \<Rightarrow> (Inl e, [])
      | Inr message \<Rightarrow>
          if message = [] then (Inl (ValueError EmptyBatch), [])
          else
            (case generate_batch p message 16 tk of
               Inl e \<Rightarrow> (Inl e, [BatchCall message 16 tk])
             | Inr answer \<Rightarrow>
                 (case extract_all answer of
                    Inl e \<Rightarrow> (Inl e, [BatchCall message 16 tk])
                  | Inr cs \<Rightarrow> (Inr (PyList (map PyStr cs)), [BatchCall message 16 tk]))))"
  by (simp add: inference_def)

lemma inference_batch_filter:
  "inference (PyStr style) (PyList (filter (\<lambda>x. \<not> skipped x) lines))
     (TextGenerationPipeline p) tk ll =
   inference (PyStr style) (PyList lines) (TextGenerationPipeline p) tk ll"
  unfolding inference_batch batch_loop_filter ..

lemma inference_batch_abort:
  "\<exists>x\<in>set lines. oversized ll x \<Longrightarrow>
   inference (PyStr style) (PyList lines) (TextGenerationPipeline p) tk ll =
     (Inl (ValueError LineLengthExceeded), [])"
  by (simp add: inference_batch batch_loop_char)

lemma inference_batch_ok:
  "\<not> (\<exists>x\<in>set lines. oversized ll x) \<Longrightarrow>
   inference (PyStr style) (PyList lines) (TextGenerationPipeline p) tk ll =
     (if surviving style lines = [] then (Inl (ValueError EmptyBatch), [])
      else
        (case generate_batch p (surviving style lines) 16 tk of
           Inl e \<Rightarrow> (Inl e, [BatchCall (surviving style lines) 16 tk])
         | Inr answer \<Rightarrow>
             (case extract_all answer of
                Inl e \<Rightarrow> (Inl e, [BatchCall (surviving style lines) 16 tk])
              | Inr cs \<Rightarrow>
                  (Inr (PyList (map PyStr cs)), [BatchCall (surviving style lines) 16 tk]))))"
  by (simp add: inference_batch batch_loop_char)

lemma oversized_nonneg:
  "0 \<le> limit \<Longrightarrow> limit < int (length (strip s)) \<Longrightarrow> oversized (Some limit) (PyStr s)"
  by (auto simp: exceeds_def)

lemma inference_single:
  "inference (PyStr style) (PyStr s) (TextGenerationPipeline p) tk ll =
     (if strip s = [] then (Inl (ValueError EmptyInput), [])
      else if exceeds ll (strip s) then (Inl (ValueError InputLengthExceeded), [])
      else
        (case generate p (buildConversation style (strip s)) tk of
           Inl e \<Rightarrow> (Inl e, [Call (buildConversation style (strip s)) tk])
         | Inr out \<Rightarrow>
             (case last_content out of
                Inl e \<Rightarrow> (Inl e, [Call (buildConversation style (strip s)) tk])
              | Inr c \<Rightarrow> (Inr (PyStr c), [Call (buildConversation style (strip s)) tk]))))"
  unfolding buildConversation_def inference_def by (simp add: Let_def)

section \<open>The claims about the input validator\<close>

text \<open>
  C1. In batch mode, for every list of raw lines and every finite length limit, the
  validator skips, with no error, every entry that is not a string and every entry that
  is empty after trimming: the call behaves as on the list without these entries. It
  raises the length error (a \<open>ValueError\<close>) for the whole batch, before any call of the
  pipeline, as soon as one string entry that is not empty after trimming has a trimmed
  length above the limit, whatever else the batch holds. For a limit that is not
  negative, a trimmed length above the limit already says that the entry is not empty
  after trimming.
\<close>

theorem batch_skip_and_abort:
  "inference (PyStr style) (PyList lines) (TextGenerationPipeline p) token_limit len_limit =
     inference (PyStr style) (PyList (filter (\<lambda>x. \<not> skipped x) lines))
       (TextGenerationPipeline p) token_limit len_limit
   \<and> ((\<exists>x\<in>set lines. oversized (Some limit) x) \<longrightarrow>
        inference (PyStr style) (PyList lines) (TextGenerationPipeline p) token_limit (Some limit) =
          (Inl (ValueError LineLengthExceeded), []))
   \<and> (0 \<le> limit \<longrightarrow> (\<exists>s. PyStr s \<in> set lines \<and> limit < int (length (strip s))) \<longrightarrow>
        inference (PyStr style) (PyList lines) (TextGenerationPipeline p) token_limit (Some limit) =
          (Inl (ValueError LineLengthExceeded), []))"
proof (intro conjI impI)
  show "inference (PyStr style) (PyList lines) (TextGenerationPipeline p) token_limit len_limit =
     inference (PyStr style) (PyList (filter (\<lambda>x. \<not> skipped x) lines))
       (TextGenerationPipeline p) token_limit len_limit"
    by (rule inference_batch_filter [symmetric])
next
  assume "\<exists>x\<in>set lines. oversized (Some limit) x"
  then show "inference (PyStr style) (PyList lines) (TextGenerationPipeline p) token_limit (Some limit) =
          (Inl (ValueError LineLengthExceeded), [])"
    by (rule inference_batch_abort)
next
  assume "0 \<le> limit" and "\<exists>s. PyStr s \<in> set lines \<and> limit < int (length (strip s))"
  then have "\<exists>x\<in>set lines. oversized (Some limit) x"
    using oversized_nonneg by blast
  then show "inference (PyStr style) (PyList lines) (TextGenerationPipeline p) token_limit (Some limit) =
          (Inl (ValueError LineLengthExceeded), [])"
    by (rule inference_batch_abort)
qed

theorem batch_skip_and_abort_witness:
  "inference (PyStr (ascii ''formal''))
       (PyList [PyInt 5, PyStr [32, 32], PyStr (ascii ''ok''), PyStr (ascii ''toolong''), PyNone])
       (TextGenerationPipeline echo_pipeline) (Some 50) (Some 3) =
     (Inl (ValueError LineLengthExceeded), [])
   \<and> inference (PyStr (ascii ''formal'')) (PyList [PyStr (ascii ''ok''), PyStr (ascii ''toolong'')])
       (TextGenerationPipeline echo_pipeline) (Some 50) (Some 3) =
     (Inl (ValueError LineLengthExceeded), [])"
proof -
  let ?lines = "[PyInt 5, PyStr [32, 32], PyStr (ascii ''ok''), PyStr (ascii ''toolong''), PyNone]"
  note T = batch_skip_and_abort [of "ascii ''formal''" ?lines echo_pipeline "Some 50" "Some 3" 3]
  have h: "\<exists>x\<in>set ?lines. oversized (Some 3) x"
    by (simp add: strip_def isspace_def ascii_def exceeds_def)
  have f: "filter (\<lambda>x. \<not> skipped x) ?lines = [PyStr (ascii ''ok''), PyStr (ascii ''toolong'')]"
    by (simp add: strip_def isspace_def ascii_def)
  have a: "inference (PyStr (ascii ''formal'')) (PyList ?lines)
       (TextGenerationPipeline echo_pipeline) (Some 50) (Some 3) =
     (Inl (ValueError LineLengthExceeded), [])"
    using T h by blast
  have b: "inference (PyStr (ascii ''formal'')) (PyList ?lines)
       (TextGenerationPipeline echo_pipeline) (Some 50) (Some 3) =
     inference (PyStr (ascii ''formal'')) (PyList (filter (\<lambda>x. \<not> skipped x) ?lines))
       (TextGenerationPipeline echo_pipeline) (Some 50) (Some 3)"
    using T by blast
  from b have b': "inference (PyStr (ascii ''formal''))
       (PyList [PyStr (ascii ''ok''), PyStr (ascii ''toolong'')])
       (TextGenerationPipeline echo_pipeline) (Some 50) (Some 3) =
     (Inl (ValueError LineLengthExceeded), [])"
    unfolding f a by (rule sym)
  show ?thesis by (rule conjI [OF a b'])
qed

text \<open>
  C6. In batch mode, when every entry is skipped (it is not a string, or it is empty
  after trimming), so that nothing is left after filtering, \<open>inference\<close> fails with the
  empty-batch error (a \<open>ValueError\<close>) and has made no call of the pipeline. A batch of
  empty and blank lines is the witness, and so is the empty list.
\<close>

theorem empty_batch:
  "(\<forall>x\<in>set lines. skipped x) \<longrightarrow>
     inference (PyStr style) (PyList lines) (TextGenerationPipeline p) token_limit len_limit =
       (Inl (ValueError EmptyBatch), [])"
proof
  assume a: "\<forall>x\<in>set lines. skipped x"
  then have "\<not> (\<exists>x\<in>set lines. oversized len_limit x)"
    using oversized_not_skipped by blast
  moreover from a have "surviving style lines = []"
    by (simp add: surviving_Nil_iff)
  ultimately show "inference (PyStr style) (PyList lines) (TextGenerationPipeline p) token_limit len_limit =
       (Inl (ValueError EmptyBatch), [])"
    by (simp add: inference_batch_ok)
qed

theorem empty_batch_witness:
  "inference (PyStr (ascii ''formal'')) (PyList [PyStr [], PyStr [32, 9, 32], PyStr [10]])
     (TextGenerationPipeline echo_pipeline) None (Some 200) = (Inl (ValueError EmptyBatch), [])
   \<and> inference (PyStr (ascii ''formal'')) (PyList [])
     (TextGenerationPipeline echo_pipeline) None (Some 200) = (Inl (ValueError EmptyBatch), [])"
proof -
  have h: "\<forall>x\<in>set [PyStr [], PyStr [32, 9, 32], PyStr [10]]. skipped x"
    by (simp add: strip_def isspace_def)
  have h0: "\<forall>x\<in>set ([] :: pyobj list). skipped x"
    by simp
  show ?thesis
    using empty_batch [of "[PyStr [], PyStr [32, 9, 32], PyStr [10]]" "ascii ''formal''"
        echo_pipeline None "Some 200"]
      empty_batch [of "[]" "ascii ''formal''" echo_pipeline None "Some 200"] h h0
    by blast
qed

text \<open>
  C7. In single-string mode the input is trimmed. When the trimmed text is empty,
  \<open>inference\<close> fails with the empty-input error (a \<open>ValueError\<close>); when it is not empty
  and its length exceeds the finite limit, \<open>inference\<close> fails with the length error (a
  \<open>ValueError\<close>); both before any call of the pipeline. For a limit that is not negative,
  a trimmed length above the limit suffices. The witness rejects three spaces, and a
  string of length 4 under the limit 3.
\<close>

theorem single_validation:
  "(strip s = [] \<longrightarrow>
      inference (PyStr style) (PyStr s) (TextGenerationPipeline p) token_limit len_limit =
        (Inl (ValueError EmptyInput), []))
   \<and> (strip s \<noteq> [] \<longrightarrow> limit < int (length (strip s)) \<longrightarrow>
      inference (PyStr style) (PyStr s) (TextGenerationPipeline p) token_limit (Some limit) =
        (Inl (ValueError InputLengthExceeded), []))
   \<and> (0 \<le> limit \<longrightarrow> limit < int (length (strip s)) \<longrightarrow>
      inference (PyStr style) (PyStr s) (TextGenerationPipeline p) token_limit (Some limit) =
        (Inl (ValueError InputLengthExceeded), []))"
  by (auto simp: inference_single exceeds_def)

theorem single_validation_witness:
  "inference (PyStr (ascii ''formal'')) (PyStr [32, 32, 32]) (TextGenerationPipeline echo_pipeline)
       (Some 50) (Some 200) = (Inl (ValueError EmptyInput), [])
   \<and> inference (PyStr (ascii ''formal'')) (PyStr [97, 97, 97, 97]) (TextGenerationPipeline echo_pipeline)
       (Some 50) (Some 3) = (Inl (ValueError InputLengthExceeded), [])"
proof -
  have e: "strip [32, 32, 32] = []"
    by (simp add: strip_def isspace_def)
  have l: "strip [97, 97, 97, 97] = [97, 97, 97, 97]"
    by (simp add: strip_def isspace_def)
  have n: "(3::int) < int (length (strip [97, 97, 97, 97]))" "(0::int) \<le> 3"
    unfolding l by simp_all
  show ?thesis
    using single_validation [of "[32, 32, 32]" "ascii ''formal''" echo_pipeline "Some 50" "Some 200" 0]
      single_validation [of "[97, 97, 97, 97]" "ascii ''formal''" echo_pipeline "Some 50" "Some 3" 3] e n
    by blast
qed

section \<open>The type checks\<close>

text \<open>
  C9. \<open>inference\<close> fails with a \<open>TypeError\<close> whenever \<open>style\<close> is not a string, and
  whenever \<open>pipe\<close> is not an instance of \<open>TextGenerationPipeline\<close> (an object without
  the text-generation capability is such a pipe; the check is on the class, so a
  capable object of another class is refused as well). This holds for every \<open>input\<close>,
  well-formed or not, and no call of the pipeline has been made: the checks come before
  the validation of the input and before the pipeline. When both arguments are wrong, the
  error is the one about \<open>style\<close>.
\<close>

theorem type_checks_first:
  "((\<forall>s. style \<noteq> PyStr s) \<longrightarrow>
      inference style input pipe token_limit len_limit = (Inl (TypeError StyleMustBeStr), []))
   \<and> ((\<forall>p. pipe \<noteq> TextGenerationPipeline p) \<longrightarrow>
      inference style input pipe token_limit len_limit =
        (Inl (TypeError (case style of PyStr s \<Rightarrow> PipeMustBePipeline | _ \<Rightarrow> StyleMustBeStr)), []))"
proof (intro conjI impI)
  assume "\<forall>s. style \<noteq> PyStr s"
  then show "inference style input pipe token_limit len_limit = (Inl (TypeError StyleMustBeStr), [])"
    by (cases style) (simp_all add: inference_def)
next
  assume "\<forall>p. pipe \<noteq> TextGenerationPipeline p"
  then obtain q where "pipe = OtherObject q"
    by (cases pipe) auto
  then show "inference style input pipe token_limit len_limit =
        (Inl (TypeError (case style of PyStr s \<Rightarrow> PipeMustBePipeline | _ \<Rightarrow> StyleMustBeStr)), [])"
    by (cases style) (simp_all add: inference_def)
qed

theorem type_checks_first_witness:
  "inference (PyInt 7) (PyStr []) (TextGenerationPipeline echo_pipeline) None (Some 200) =
     (Inl (TypeError StyleMustBeStr), [])
   \<and> inference (PyStr (ascii ''formal'')) (PyStr []) (OtherObject None) None (Some 200) =
     (Inl (TypeError PipeMustBePipeline), [])
   \<and> inference (PyStr (ascii ''formal'')) (PyInt 3) (OtherObject (Some echo_pipeline)) None (Some 200) =
     (Inl (TypeError PipeMustBePipeline), [])"
  using type_checks_first [of "PyInt 7" "PyStr []" "TextGenerationPipeline echo_pipeline" None "Some 200"]
    type_checks_first [of "PyStr (ascii ''formal'')" "PyStr []" "OtherObject None" None "Some 200"]
    type_checks_first [of "PyStr (ascii ''formal'')" "PyInt 3" "OtherObject (Some echo_pipeline)" None "Some 200"]
  by simp

section \<open>The order of the checks in batch mode\<close>

lemma oversized_iff:
  "oversized (Some limit) x \<longleftrightarrow>
   (\<exists>s. x = PyStr s \<and> strip s \<noteq> [] \<and> limit < int (length (strip s)))"
  by (cases x) (auto simp: exceeds_def)

lemma oversized_Some:
  "(\<exists>x\<in>set lines. oversized (Some limit) x) \<longleftrightarrow>
   (\<exists>s. PyStr s \<in> set lines \<and> strip s \<noteq> [] \<and> limit < int (length (strip s)))"
  unfolding oversized_iff by blast

lemma not_oversized_None: "\<not> oversized None x"
  by (cases x) (simp_all add: exceeds_def)

lemma inference_batch_not_abort:
  assumes "\<not> (\<exists>x\<in>set lines. oversized ll x)"
  shows "inference (PyStr style) (PyList lines) (TextGenerationPipeline p) tk ll \<noteq>
           (Inl (ValueError LineLengthExceeded), [])"
  unfolding inference_batch_ok [OF assms]
  by (simp split: sum.splits)

lemma inference_skip_one:
  assumes "skipped x"
  shows "inference (PyStr style) (PyList (xs @ x # ys)) (TextGenerationPipeline p) tk ll =
         inference (PyStr style) (PyList (xs @ ys)) (TextGenerationPipeline p) tk ll"
proof -
  have "filter (\<lambda>x. \<not> skipped x) (xs @ x # ys) = filter (\<lambda>x. \<not> skipped x) (xs @ ys)"
    using assms by simp
  then show ?thesis
    using inference_batch_filter [of style "xs @ x # ys" p tk ll]
      inference_batch_filter [of style "xs @ ys" p tk ll]
    by simp
qed

text \<open>
  C10. In batch mode the length limit is applied to the trimmed line and after the
  skips. With a limit, the batch is aborted with the length error exactly when some
  string entry is not empty after trimming and has a trimmed length above the limit; an
  entry that is skipped (not a string, or empty after trimming) can be removed without
  changing the outcome, whatever its raw length and whatever the limit; and with
  \<open>len_limit = None\<close> the loop never fails, it keeps every entry that is not skipped, so
  the length error does not occur. The witness has a line of raw length 8 and trimmed
  length 2 under the limit 2, and a line of six spaces under the same limit.
\<close>

theorem limit_on_trimmed_line:
  "(inference (PyStr style) (PyList lines) (TextGenerationPipeline p) token_limit (Some limit) =
      (Inl (ValueError LineLengthExceeded), [])
    \<longleftrightarrow> (\<exists>s. PyStr s \<in> set lines \<and> strip s \<noteq> [] \<and> limit < int (length (strip s))))
   \<and> (skipped x \<longrightarrow>
        inference (PyStr style) (PyList (xs @ x # ys)) (TextGenerationPipeline p) token_limit len_limit =
        inference (PyStr style) (PyList (xs @ ys)) (TextGenerationPipeline p) token_limit len_limit)
   \<and> batch_loop style None lines [] = Inr (surviving style lines)
   \<and> inference (PyStr style) (PyList lines) (TextGenerationPipeline p) token_limit None \<noteq>
        (Inl (ValueError LineLengthExceeded), [])"
proof (intro conjI impI)
  show "inference (PyStr style) (PyList lines) (TextGenerationPipeline p) token_limit (Some limit) =
      (Inl (ValueError LineLengthExceeded), [])
    \<longleftrightarrow> (\<exists>s. PyStr s \<in> set lines \<and> strip s \<noteq> [] \<and> limit < int (length (strip s)))"
    unfolding oversized_Some [symmetric]
    using inference_batch_abort inference_batch_not_abort by blast
next
  assume "skipped x"
  then show "inference (PyStr style) (PyList (xs @ x # ys)) (TextGenerationPipeline p) token_limit len_limit =
        inference (PyStr style) (PyList (xs @ ys)) (TextGenerationPipeline p) token_limit len_limit"
    by (rule inference_skip_one)
next
  show "batch_loop style None lines [] = Inr (surviving style lines)"
    by (simp add: batch_loop_char not_oversized_None)
next
  show "inference (PyStr style) (PyList lines) (TextGenerationPipeline p) token_limit None \<noteq>
        (Inl (ValueError LineLengthExceeded), [])"
    by (rule inference_batch_not_abort) (simp add: not_oversized_None)
qed


theorem limit_on_trimmed_line_witness:
  "inference (PyStr (ascii ''formal'')) (PyList [PyStr [32, 32, 32, 97, 98, 32, 32, 32]])
       (TextGenerationPipeline echo_pipeline) None (Some 2) \<noteq>
     (Inl (ValueError LineLengthExceeded), [])
   \<and> inference (PyStr (ascii ''formal'')) (PyList [PyStr [32, 32, 32, 32, 32, 32], PyStr [97, 98]])
       (TextGenerationPipeline echo_pipeline) None (Some 2) =
     inference (PyStr (ascii ''formal'')) (PyList [PyStr [97, 98]])
       (TextGenerationPipeline echo_pipeline) None (Some 2)"
proof -
  have s1: "strip [32, 32, 32, 97, 98, 32, 32, 32] = [97, 98]"
    by (simp add: strip_def isspace_def)
  have n: "\<not> (\<exists>s. PyStr s \<in> set [PyStr [32, 32, 32, 97, 98, 32, 32, 32]] \<and> strip s \<noteq> [] \<and>
              2 < int (length (strip s)))"
    by (simp add: s1)
  have k: "skipped (PyStr [32, 32, 32, 32, 32, 32])"
    by (simp add: strip_def isspace_def)
  have a: "inference (PyStr (ascii ''formal'')) (PyList [PyStr [32, 32, 32, 97, 98, 32, 32, 32]])
       (TextGenerationPipeline echo_pipeline) None (Some 2) \<noteq>
     (Inl (ValueError LineLengthExceeded), [])"
    using limit_on_trimmed_line [of "ascii ''formal''" "[PyStr [32, 32, 32, 97, 98, 32, 32, 32]]"
        echo_pipeline None 2 PyNone "[]" "[]" None] n
    by blast
  have b: "inference (PyStr (ascii ''formal''))
       (PyList ([] @ PyStr [32, 32, 32, 32, 32, 32] # [PyStr [97, 98]]))
       (TextGenerationPipeline echo_pipeline) None (Some 2) =
     inference (PyStr (ascii ''formal'')) (PyList ([] @ [PyStr [97, 98]]))
       (TextGenerationPipeline echo_pipeline) None (Some 2)"
    using limit_on_trimmed_line [of "ascii ''formal''" "[]" echo_pipeline None 2
        "PyStr [32, 32, 32, 32, 32, 32]" "[]" "[PyStr [97, 98]]" "Some 2"] k
    by blast
  show ?thesis using a b by simp
qed

section \<open>The result of a batch\<close>

lemma valid_line_iff: "valid_line ll x \<longleftrightarrow> \<not> skipped x \<and> \<not> oversized ll x"
  by (cases x) auto

lemma filter_valid:
  "\<not> (\<exists>x\<in>set lines. oversized ll x) \<Longrightarrow>
   filter (valid_line ll) lines = filter (\<lambda>x. \<not> skipped x) lines"
  by (rule filter_cong) (auto simp: valid_line_iff)

lemma extract_all_ok:
  "\<forall>a\<in>set answer. \<exists>c. last_content a = Inr c \<Longrightarrow>
   \<exists>cs. extract_all answer = Inr cs \<and> length cs = length answer \<and>
        (\<forall>i<length answer. last_content (answer ! i) = Inr (cs ! i))"
proof (induction answer)
  case Nil
  show ?case by simp
next
  case (Cons a answer)
  then obtain c where c: "last_content a = Inr c" by auto
  from Cons obtain cs where cs: "extract_all answer = Inr cs" "length cs = length answer"
      "\<forall>i<length answer. last_content (answer ! i) = Inr (cs ! i)"
    by auto
  have "extract_all (a # answer) = Inr (c # cs)"
    by (simp add: c cs)
  moreover have "\<forall>i<length (a # answer). last_content ((a # answer) ! i) = Inr ((c # cs) ! i)"
    using c cs(3) by (auto simp: nth_Cons split: nat.splits)
  ultimately show ?case using cs(2) by auto
qed

text \<open>
  C5, as amended. For every batch in which no string entry that is not empty after
  trimming exceeds the limit, and which holds at least one valid line, given that the
  pipeline answers the submitted conversations (the conversations of the valid lines, in
  their order) with one reply for each, each of them holding a last message:
  \<open>inference\<close> returns a list of strings with as many entries as there are valid lines,
  the \<open>i\<close>-th being the text taken from the \<open>i\<close>-th reply, with nothing standing for a
  skipped line. The witness runs the echoing pipeline on four entries of which two are
  valid.
\<close>

theorem batch_results_aligned:
  "\<not> (\<exists>x\<in>set lines. oversized len_limit x) \<longrightarrow>
   (\<exists>x\<in>set lines. valid_line len_limit x) \<longrightarrow>
   generate_batch p (map (\<lambda>x. buildConversation style (trimmed x)) (filter (valid_line len_limit) lines))
       16 token_limit = Inr answer \<longrightarrow>
   length answer = length (filter (valid_line len_limit) lines) \<longrightarrow>
   (\<forall>a\<in>set answer. \<exists>c. last_content a = Inr c) \<longrightarrow>
   (\<exists>cs. inference (PyStr style) (PyList lines) (TextGenerationPipeline p) token_limit len_limit =
            (Inr (PyList (map PyStr cs)),
             [BatchCall (map (\<lambda>x. buildConversation style (trimmed x))
                          (filter (valid_line len_limit) lines)) 16 token_limit])
        \<and> length cs = length (filter (valid_line len_limit) lines)
        \<and> (\<forall>i<length cs. last_content (answer ! i) = Inr (cs ! i)))"
proof (intro impI)
  let ?convs = "map (\<lambda>x. buildConversation style (trimmed x)) (filter (valid_line len_limit) lines)"
  assume no: "\<not> (\<exists>x\<in>set lines. oversized len_limit x)"
    and some: "\<exists>x\<in>set lines. valid_line len_limit x"
    and gen: "generate_batch p ?convs 16 token_limit = Inr answer"
    and len: "length answer = length (filter (valid_line len_limit) lines)"
    and ok: "\<forall>a\<in>set answer. \<exists>c. last_content a = Inr c"
  have sv: "surviving style lines = ?convs"
    by (simp add: surviving_def filter_valid [OF no])
  from some have ne: "?convs \<noteq> []"
    by (simp add: filter_empty_conv)
  from extract_all_ok [OF ok] obtain cs where cs: "extract_all answer = Inr cs"
      "length cs = length answer" "\<forall>i<length answer. last_content (answer ! i) = Inr (cs ! i)"
    by blast
  have "inference (PyStr style) (PyList lines) (TextGenerationPipeline p) token_limit len_limit =
          (Inr (PyList (map PyStr cs)), [BatchCall ?convs 16 token_limit])"
    unfolding inference_batch_ok [OF no] sv using ne gen cs(1) by simp
  then show "\<exists>cs. inference (PyStr style) (PyList lines) (TextGenerationPipeline p) token_limit len_limit =
            (Inr (PyList (map PyStr cs)), [BatchCall ?convs 16 token_limit])
        \<and> length cs = length (filter (valid_line len_limit) lines)
        \<and> (\<forall>i<length cs. last_content (answer ! i) = Inr (cs ! i))"
    using cs(2,3) len by auto
qed

text \<open>
  C5 as it is stated, for every batch with at least one valid line, fails: a valid line
  beside a line over the limit gives the length error and no result.
\<close>

theorem batch_valid_line_counterexample:
  "valid_line (Some 2) (PyStr (ascii ''a''))
   \<and> inference (PyStr (ascii ''formal'')) (PyList [PyStr (ascii ''a''), PyStr (ascii ''bbb'')])
       (TextGenerationPipeline echo_pipeline) None (Some 2) =
     (Inl (ValueError LineLengthExceeded), [])"
  by (simp add: inference_batch strip_def isspace_def ascii_def exceeds_def)


theorem batch_results_aligned_witness:
  "inference (PyStr (ascii ''formal''))
       (PyList [PyInt 1, PyStr [32, 104, 105, 32], PyStr [], PyStr [121, 111]])
       (TextGenerationPipeline echo_pipeline) None (Some 5) =
     (Inr (PyList [PyStr (TEXT_PREFIX @ [104, 105] @ STYLE_INFIX @ ascii ''formal''),
                   PyStr (TEXT_PREFIX @ [121, 111] @ STYLE_INFIX @ ascii ''formal'')]),
      [BatchCall [buildConversation (ascii ''formal'') [104, 105],
                  buildConversation (ascii ''formal'') [121, 111]] 16 None])"
proof -
  let ?lines = "[PyInt 1, PyStr [32, 104, 105, 32], PyStr [], PyStr [121, 111]]"
  let ?convs = "[buildConversation (ascii ''formal'') [104, 105],
                 buildConversation (ascii ''formal'') [121, 111]]"
  let ?answer = "map echo_reply ?convs"
  have s: "strip [32, 104, 105, 32] = [104, 105]" "strip [] = []" "strip [121, 111] = [121, 111]"
    by (simp_all add: strip_def isspace_def)
  have f: "filter (valid_line (Some 5)) ?lines = [PyStr [32, 104, 105, 32], PyStr [121, 111]]"
    by (simp add: s exceeds_def)
  have c: "map (\<lambda>x. buildConversation (ascii ''formal'') (trimmed x))
             (filter (valid_line (Some 5)) ?lines) = ?convs"
    unfolding f by (simp add: s)
  have h1: "\<not> (\<exists>x\<in>set ?lines. oversized (Some 5) x)"
    by (simp add: s exceeds_def)
  have h2: "\<exists>x\<in>set ?lines. valid_line (Some 5) x"
    by (simp add: s exceeds_def)
  have h3: "generate_batch echo_pipeline
              (map (\<lambda>x. buildConversation (ascii ''formal'') (trimmed x))
                 (filter (valid_line (Some 5)) ?lines)) 16 None = Inr ?answer"
    unfolding c by (simp add: echo_pipeline_def)
  have h4: "length ?answer = length (filter (valid_line (Some 5)) ?lines)"
    unfolding f by simp
  have l0: "last_content (?answer ! 0) =
              Inr (TEXT_PREFIX @ [104, 105] @ STYLE_INFIX @ ascii ''formal'')"
    and l1: "last_content (?answer ! 1) =
              Inr (TEXT_PREFIX @ [121, 111] @ STYLE_INFIX @ ascii ''formal'')"
    by (simp_all add: echo_reply_def last_content_def buildConversation_def)
  have h5: "\<forall>a\<in>set ?answer. \<exists>c. last_content a = Inr c"
    by (simp add: echo_reply_def last_content_def buildConversation_def)
  from batch_results_aligned [of ?lines "Some 5" echo_pipeline "ascii ''formal''" None ?answer]
    h1 h2 h3 h4 h5
  obtain cs where cs:
    "inference (PyStr (ascii ''formal'')) (PyList ?lines) (TextGenerationPipeline echo_pipeline)
       None (Some 5) =
     (Inr (PyList (map PyStr cs)),
      [BatchCall (map (\<lambda>x. buildConversation (ascii ''formal'') (trimmed x))
                   (filter (valid_line (Some 5)) ?lines)) 16 None])"
    "length cs = length (filter (valid_line (Some 5)) ?lines)"
    "\<forall>i<length cs. last_content (?answer ! i) = Inr (cs ! i)"
    by blast
  from cs(2) have n: "length cs = 2"
    unfolding f by simp
  have "last_content (?answer ! 0) = Inr (cs ! 0)" "last_content (?answer ! 1) = Inr (cs ! 1)"
    using cs(3) [rule_format, of 0] cs(3) [rule_format, of 1] n by simp_all
  then have "cs ! 0 = TEXT_PREFIX @ [104, 105] @ STYLE_INFIX @ ascii ''formal''"
    "cs ! 1 = TEXT_PREFIX @ [121, 111] @ STYLE_INFIX @ ascii ''formal''"
    unfolding l0 l1 by simp_all
  moreover from n obtain a b where "cs = [a, b]"
    by (cases cs; cases "tl cs"; auto)
  ultimately have "cs = [TEXT_PREFIX @ [104, 105] @ STYLE_INFIX @ ascii ''formal'',
                         TEXT_PREFIX @ [121, 111] @ STYLE_INFIX @ ascii ''formal'']"
    by simp
  with cs(1) show ?thesis
    unfolding c by simp
qed

section \<open>The conversations sent to the pipeline\<close>



section \<open>Counting words\<close>

lemma starts_after_Nil: "starts_after p [] = []"
  by (simp add: starts_after_def)

lemma upt_Suc_shift: "[0..<Suc n] = 0 # map Suc [0..<n]"
  by (simp add: upt_conv_Cons map_Suc_upt del: upt_Suc)

lemma length_starts_after_Cons:
  "length (starts_after p (c # cs)) =
     (if word_char c \<and> \<not> word_char p then 1 else 0) + length (starts_after c cs)"
proof -
  have "[0..<length (c # cs)] = 0 # map Suc [0..<length cs]"
    using upt_Suc_shift [of "length cs"] by simp
  then show ?thesis
    unfolding starts_after_def by (simp add: filter_map o_def)
qed


lemma run_starts_eq: "\<not> word_char p \<Longrightarrow> run_starts s = starts_after p s"
  unfolding run_starts_def starts_after_def
  by (rule filter_cong) (auto simp: nth_Cons split: nat.splits)

lemma starts_after_nonword:
  "\<not> word_char p \<Longrightarrow> \<not> word_char q \<Longrightarrow>
   length (starts_after p s) = length (starts_after q s)"
  by (cases s) (simp_all add: starts_after_Nil length_starts_after_Cons)

lemma starts_after_dropWhile:
  "word_char q \<Longrightarrow>
   length (starts_after q s) = length (starts_after p (dropWhile word_char s))"
proof (induction s arbitrary: q)
  case Nil
  show ?case by (simp add: starts_after_Nil)
next
  case (Cons d ds)
  show ?case
  proof (cases "word_char d")
    case True
    with Cons show ?thesis by (simp add: length_starts_after_Cons)
  next
    case False
    with Cons.prems show ?thesis by (simp add: length_starts_after_Cons)
  qed
qed


lemma length_findall_words:
  "\<not> word_char p \<Longrightarrow> length (findall_words s) = length (starts_after p s)"
proof (induction s rule: findall_words.induct)
  case 1
  show ?case by (simp add: starts_after_Nil)
next
  case (2 c cs)
  show ?case
  proof (cases "word_char c")
    case True
    then have "length (findall_words (dropWhile word_char cs)) =
        length (starts_after p (dropWhile word_char cs))"
      using "2.IH"(1) "2.prems" by blast
    with True "2.prems" show ?thesis
      by (simp add: length_starts_after_Cons starts_after_dropWhile [of c cs p])
  next
    case False
    then have "length (findall_words cs) = length (starts_after p cs)"
      using "2.IH"(2) "2.prems" by blast
    with False "2.prems" show ?thesis
      using starts_after_nonword [of p c cs]
      by (simp add: length_starts_after_Cons)
  qed
qed


lemma findall_words_runs:
  "w \<in> set (findall_words s) \<Longrightarrow> w \<noteq> [] \<and> (\<forall>c\<in>set w. word_char c)"
proof (induction s rule: findall_words.induct)
  case 1
  then show ?case by simp
next
  case (2 c cs)
  show ?case
  proof (cases "word_char c")
    case True
    with "2.prems" have "w = c # takeWhile word_char cs \<or> w \<in> set (findall_words (dropWhile word_char cs))"
      by simp
    then show ?thesis
    proof
      assume "w = c # takeWhile word_char cs"
      with True show ?thesis
        by (auto dest: set_takeWhileD)
    next
      assume "w \<in> set (findall_words (dropWhile word_char cs))"
      with True "2.IH"(1) show ?thesis by blast
    qed
  next
    case False
    with "2.prems" have "w \<in> set (findall_words cs)"
      by simp
    with False "2.IH"(2) show ?thesis by blast
  qed
qed

lemma space_not_word: "\<not> word_char 32"
  by (simp add: word_char_def)


text \<open>
  C3. \<open>count_words\<close> counts the maximal runs of characters of the class: the Latin
  letters \<open>A-Z\<close> and \<open>a-z\<close>, the Cyrillic letters U+0410 to U+044F with U+0401 and
  U+0451 (IO), the digits \<open>0-9\<close> and the apostrophe. Its value is the number of
  positions where a run starts, every match is a run that is not empty and holds only
  characters of the class, and the three values of the specification come out: 4 for
  "Hello, world! 123 don't", 0 for the empty text and 2 for the two Russian words of the
  third example. The witness lists the four matches of the first example.
\<close>

theorem count_words_runs:
  "count_words s = length (run_starts s)
   \<and> (\<forall>w\<in>set (findall_words s). w \<noteq> [] \<and> (\<forall>c\<in>set w. word_char c))
   \<and> count_words [72, 101, 108, 108, 111, 44, 32, 119, 111, 114, 108, 100, 33, 32, 49, 50, 51,
                   32, 100, 111, 110, 39, 116] = 4
   \<and> count_words [] = 0
   \<and> count_words [1055, 1088, 1080, 1074, 1077, 1090, 32, 1084, 1080, 1088] = 2"
proof (intro conjI)
  show "count_words s = length (run_starts s)"
    unfolding count_words_def run_starts_eq [OF space_not_word]
    by (rule length_findall_words [OF space_not_word])
  show "\<forall>w\<in>set (findall_words s). w \<noteq> [] \<and> (\<forall>c\<in>set w. word_char c)"
    using findall_words_runs by blast
  show "count_words [72, 101, 108, 108, 111, 44, 32, 119, 111, 114, 108, 100, 33, 32, 49, 50, 51,
                   32, 100, 111, 110, 39, 116] = 4"
    by (simp add: count_words_def word_char_def)
  show "count_words [] = 0"
    by (simp add: count_words_def)
  show "count_words [1055, 1088, 1080, 1074, 1077, 1090, 32, 1084, 1080, 1088] = 2"
    by (simp add: count_words_def word_char_def)
qed

theorem count_words_runs_witness:
  "length (run_starts [72, 101, 108, 108, 111, 44, 32, 119, 111, 114, 108, 100, 33, 32, 49, 50,
                       51, 32, 100, 111, 110, 39, 116]) = 4
   \<and> findall_words [72, 101, 108, 108, 111, 44, 32, 119, 111, 114, 108, 100, 33, 32, 49, 50, 51,
                    32, 100, 111, 110, 39, 116] =
     [[72, 101, 108, 108, 111], [119, 111, 114, 108, 100], [49, 50, 51], [100, 111, 110, 39, 116]]"
proof -
  let ?hello = "[72, 101, 108, 108, 111, 44, 32, 119, 111, 114, 108, 100, 33, 32, 49, 50,
                 51, 32, 100, 111, 110, 39, 116] :: pystr"
  note T = count_words_runs [of ?hello]
  have a: "count_words ?hello = length (run_starts ?hello)"
    by (rule conjunct1 [OF T])
  have b: "count_words ?hello = 4"
    by (rule conjunct1 [OF conjunct2 [OF conjunct2 [OF T]]])
  have c: "length (run_starts ?hello) = 4"
    by (rule trans [OF a [symmetric] b])
  have d: "findall_words ?hello =
     [[72, 101, 108, 108, 111], [119, 111, 114, 108, 100], [49, 50, 51], [100, 111, 110, 39, 116]]"
    by (simp add: word_char_def)
  show ?thesis by (rule conjI [OF c d])
qed

section \<open>The refinement loop\<close>


lemma loop_Suc_unacceptable:
  "\<not> acceptable body \<Longrightarrow>
   refinement_loop (Suc n) rst style pipe body =
     (case rst pipe (correction body) style of
        (Inl e, pipe') \<Rightarrow> (Inl e, pipe', [correction body])
      | (Inr body', pipe') \<Rightarrow>
          (case refinement_loop n rst style pipe' body' of
             (r, pipe'', requests) \<Rightarrow> (r, pipe'', correction body # requests)))"
  unfolding correction_def acceptable_def by (simp add: Let_def)


lemma count_words_Nil: "count_words [] = 0"
  by (simp add: count_words_def)

lemma not_acceptable_Nil: "\<not> acceptable []"
  by (simp add: acceptable_def count_words_Nil MIN_WORDS_def)

lemma findall_words_a_space:
  "findall_words (97 # 32 # rest) = [97] # findall_words rest"
  by (simp add: word_char_def)

lemma count_words_as: "count_words (concat (replicate n [97, 32])) = n"
  unfolding count_words_def
  by (induction n) (simp_all add: findall_words_a_space del: findall_words.simps(2))





lemma loop_step_result:
  assumes "\<not> acceptable body" and "rst pipe (correction body) style = (Inr body', pipe')"
    and "refinement_loop n rst style pipe' body' = (r, pipe'', requests)"
  shows "refinement_loop (Suc n) rst style pipe body = (r, pipe'', correction body # requests)"
  unfolding loop_Suc_unacceptable [OF assms(1)] assms(2) by (simp add: assms(3))

lemma tries_Suc: "tries = Suc (Suc (Suc (Suc (Suc (Suc 0)))))"
  by (simp add: tries_def eval_nat_numeral)

lemma six_corrections:
  assumes n0: "\<not> acceptable body" and r1: "rst pipe (correction body) style = (Inr b1, p1)"
    and n1: "\<not> acceptable b1" and r2: "rst p1 (correction b1) style = (Inr b2, p2)"
    and n2: "\<not> acceptable b2" and r3: "rst p2 (correction b2) style = (Inr b3, p3)"
    and n3: "\<not> acceptable b3" and r4: "rst p3 (correction b3) style = (Inr b4, p4)"
    and n4: "\<not> acceptable b4" and r5: "rst p4 (correction b4) style = (Inr b5, p5)"
    and n5: "\<not> acceptable b5" and r6: "rst p5 (correction b5) style = (Inr b6, p6)"
  shows "refinement_loop tries rst style pipe body =
     (Inr b6, p6,
      [correction body, correction b1, correction b2, correction b3, correction b4,
       correction b5])"
proof -
  have l0: "refinement_loop 0 rst style p6 b6 = (Inr b6, p6, [])"
    by simp
  note l1 = loop_step_result [where rst = rst and style = style, OF n5 r6 l0]
  note l2 = loop_step_result [where rst = rst and style = style, OF n4 r5 l1]
  note l3 = loop_step_result [where rst = rst and style = style, OF n3 r4 l2]
  note l4 = loop_step_result [where rst = rst and style = style, OF n2 r3 l3]
  note l5 = loop_step_result [where rst = rst and style = style, OF n1 r2 l4]
  note l6 = loop_step_result [where rst = rst and style = style, OF n0 r1 l5]
  show ?thesis
    unfolding tries_Suc by (rule l6)
qed

text \<open>
  C2. When the body at every check is outside \<open>[MIN_WORDS, MAX_WORDS] = [100, 150]\<close>, the
  loop makes exactly the six correction calls of its budget, one after the other: the
  first on the pipe and the body it starts from, each following one on the pipe the call
  before has left and on the correction of the body that call has returned. It then
  returns, with no exception and without a further check, the body and the pipe of the
  sixth call, and the texts it has sent are the six corrections in this order. For a
  style-transfer function whose replies are never inside the bounds (and that returns a
  reply to every call) and a body outside the bounds to start from, this chain of six
  calls exists, and the body returned is still outside the bounds. The witness runs the
  function that always answers with the empty body, and a function that counts its calls
  and answers with 200 words and more: the count ends at 6.
\<close>

theorem budget_exhaustion:
  "(\<not> acceptable body \<longrightarrow> run_style_transfer pipe (correction body) style = (Inr b1, p1) \<longrightarrow>
    \<not> acceptable b1 \<longrightarrow> run_style_transfer p1 (correction b1) style = (Inr b2, p2) \<longrightarrow>
    \<not> acceptable b2 \<longrightarrow> run_style_transfer p2 (correction b2) style = (Inr b3, p3) \<longrightarrow>
    \<not> acceptable b3 \<longrightarrow> run_style_transfer p3 (correction b3) style = (Inr b4, p4) \<longrightarrow>
    \<not> acceptable b4 \<longrightarrow> run_style_transfer p4 (correction b4) style = (Inr b5, p5) \<longrightarrow>
    \<not> acceptable b5 \<longrightarrow> run_style_transfer p5 (correction b5) style = (Inr b6, p6) \<longrightarrow>
    refinement_loop tries run_style_transfer style pipe body =
      (Inr b6, p6,
       [correction body, correction b1, correction b2, correction b3, correction b4,
        correction b5]))
   \<and> ((\<forall>p t. \<exists>b p'. run_style_transfer p t style = (Inr b, p') \<and> \<not> acceptable b) \<longrightarrow>
       \<not> acceptable body \<longrightarrow>
       (\<exists>c1 q1 c2 q2 c3 q3 c4 q4 c5 q5 c6 q6.
          run_style_transfer pipe (correction body) style = (Inr c1, q1) \<and>
          run_style_transfer q1 (correction c1) style = (Inr c2, q2) \<and>
          run_style_transfer q2 (correction c2) style = (Inr c3, q3) \<and>
          run_style_transfer q3 (correction c3) style = (Inr c4, q4) \<and>
          run_style_transfer q4 (correction c4) style = (Inr c5, q5) \<and>
          run_style_transfer q5 (correction c5) style = (Inr c6, q6) \<and>
          refinement_loop tries run_style_transfer style pipe body =
            (Inr c6, q6,
             [correction body, correction c1, correction c2, correction c3, correction c4,
              correction c5]) \<and>
          \<not> acceptable c6))"
proof (intro conjI impI)
  assume "\<not> acceptable body" "run_style_transfer pipe (correction body) style = (Inr b1, p1)"
    "\<not> acceptable b1" "run_style_transfer p1 (correction b1) style = (Inr b2, p2)"
    "\<not> acceptable b2" "run_style_transfer p2 (correction b2) style = (Inr b3, p3)"
    "\<not> acceptable b3" "run_style_transfer p3 (correction b3) style = (Inr b4, p4)"
    "\<not> acceptable b4" "run_style_transfer p4 (correction b4) style = (Inr b5, p5)"
    "\<not> acceptable b5" "run_style_transfer p5 (correction b5) style = (Inr b6, p6)"
  then show "refinement_loop tries run_style_transfer style pipe body =
      (Inr b6, p6,
       [correction body, correction b1, correction b2, correction b3, correction b4,
        correction b5])"
    by (rule six_corrections [where rst = run_style_transfer and style = style])
next
  assume eng: "\<forall>p t. \<exists>b p'. run_style_transfer p t style = (Inr b, p') \<and> \<not> acceptable b"
    and n0: "\<not> acceptable body"
  from eng obtain c1 q1 where r1: "run_style_transfer pipe (correction body) style = (Inr c1, q1)"
    and n1: "\<not> acceptable c1" by blast
  from eng obtain c2 q2 where r2: "run_style_transfer q1 (correction c1) style = (Inr c2, q2)"
    and n2: "\<not> acceptable c2" by blast
  from eng obtain c3 q3 where r3: "run_style_transfer q2 (correction c2) style = (Inr c3, q3)"
    and n3: "\<not> acceptable c3" by blast
  from eng obtain c4 q4 where r4: "run_style_transfer q3 (correction c3) style = (Inr c4, q4)"
    and n4: "\<not> acceptable c4" by blast
  from eng obtain c5 q5 where r5: "run_style_transfer q4 (correction c4) style = (Inr c5, q5)"
    and n5: "\<not> acceptable c5" by blast
  from eng obtain c6 q6 where r6: "run_style_transfer q5 (correction c5) style = (Inr c6, q6)"
    and n6: "\<not> acceptable c6" by blast
  note l = six_corrections [where rst = run_style_transfer and style = style,
      OF n0 r1 n1 r2 n2 r3 n3 r4 n4 r5 n5 r6]
  show "\<exists>c1 q1 c2 q2 c3 q3 c4 q4 c5 q5 c6 q6.
          run_style_transfer pipe (correction body) style = (Inr c1, q1) \<and>
          run_style_transfer q1 (correction c1) style = (Inr c2, q2) \<and>
          run_style_transfer q2 (correction c2) style = (Inr c3, q3) \<and>
          run_style_transfer q3 (correction c3) style = (Inr c4, q4) \<and>
          run_style_transfer q4 (correction c4) style = (Inr c5, q5) \<and>
          run_style_transfer q5 (correction c5) style = (Inr c6, q6) \<and>
          refinement_loop tries run_style_transfer style pipe body =
            (Inr c6, q6,
             [correction body, correction c1, correction c2, correction c3, correction c4,
              correction c5]) \<and>
          \<not> acceptable c6"
    using r1 r2 r3 r4 r5 r6 l n6 by (intro exI conjI)
qed

lemma growing_transfer_pipe:
  "growing_transfer step p t style = (Inr b, p') \<Longrightarrow> p' = Suc p"
  by (simp add: growing_transfer_def)

theorem budget_exhaustion_witness:
  "refinement_loop tries (constant_transfer []) (ascii ''official'') () [] =
     (Inr [], (),
      [EXPAND_REQUEST, EXPAND_REQUEST, EXPAND_REQUEST, EXPAND_REQUEST, EXPAND_REQUEST,
       EXPAND_REQUEST])
   \<and> (\<exists>b requests.
        refinement_loop tries (growing_transfer 200) (ascii ''official'') 0 [] =
          (Inr b, 6, requests) \<and>
        length requests = 6 \<and> \<not> acceptable b)"
proof -
  have c: "correction [] = EXPAND_REQUEST"
    by (simp add: correction_def count_words_Nil MIN_WORDS_def)
  have r: "constant_transfer [] () (correction []) (ascii ''official'') = (Inr [], ())"
    by (simp add: constant_transfer_def)
  note T = budget_exhaustion [where run_style_transfer = "constant_transfer []"
      and style = "ascii ''official''" and pipe = "()" and body = "[]"
      and ?b1.0 = "[]" and ?p1.0 = "()" and ?b2.0 = "[]" and ?p2.0 = "()"
      and ?b3.0 = "[]" and ?p3.0 = "()" and ?b4.0 = "[]" and ?p4.0 = "()"
      and ?b5.0 = "[]" and ?p5.0 = "()" and ?b6.0 = "[]" and ?p6.0 = "()"]
  have a: "refinement_loop tries (constant_transfer []) (ascii ''official'') () [] =
     (Inr [], (),
      [EXPAND_REQUEST, EXPAND_REQUEST, EXPAND_REQUEST, EXPAND_REQUEST, EXPAND_REQUEST,
       EXPAND_REQUEST])"
    using T [THEN conjunct1, rule_format, OF not_acceptable_Nil r not_acceptable_Nil r
        not_acceptable_Nil r not_acceptable_Nil r not_acceptable_Nil r not_acceptable_Nil r]
    unfolding c .
  have eng: "\<forall>p t. \<exists>b p'. growing_transfer 200 p t (ascii ''official'') = (Inr b, p') \<and>
      \<not> acceptable b"
    by (simp add: growing_transfer_def acceptable_def count_words_as MAX_WORDS_def)
  note G = budget_exhaustion [where run_style_transfer = "growing_transfer 200"
      and style = "ascii ''official''" and pipe = 0 and body = "[]"]
  from G [THEN conjunct2, THEN mp, OF eng, THEN mp, OF not_acceptable_Nil]
  obtain c1 q1 c2 q2 c3 q3 c4 q4 c5 q5 c6 q6 where
      g1: "growing_transfer 200 0 (correction []) (ascii ''official'') = (Inr c1, q1)"
    and g2: "growing_transfer 200 q1 (correction c1) (ascii ''official'') = (Inr c2, q2)"
    and g3: "growing_transfer 200 q2 (correction c2) (ascii ''official'') = (Inr c3, q3)"
    and g4: "growing_transfer 200 q3 (correction c3) (ascii ''official'') = (Inr c4, q4)"
    and g5: "growing_transfer 200 q4 (correction c4) (ascii ''official'') = (Inr c5, q5)"
    and g6: "growing_transfer 200 q5 (correction c5) (ascii ''official'') = (Inr c6, q6)"
    and l: "refinement_loop tries (growing_transfer 200) (ascii ''official'') 0 [] =
          (Inr c6, q6,
           [correction [], correction c1, correction c2, correction c3, correction c4,
            correction c5])"
    and n: "\<not> acceptable c6"
    by (elim exE conjE)
  have "q6 = 6"
    using growing_transfer_pipe [OF g1] growing_transfer_pipe [OF g2]
      growing_transfer_pipe [OF g3] growing_transfer_pipe [OF g4]
      growing_transfer_pipe [OF g5] growing_transfer_pipe [OF g6]
    by simp
  with l n have b: "\<exists>b requests.
        refinement_loop tries (growing_transfer 200) (ascii ''official'') 0 [] =
          (Inr b, 6, requests) \<and>
        length requests = 6 \<and> \<not> acceptable b"
    by simp
  show ?thesis by (rule conjI [OF a b])
qed






end
